theory Spec2Isabelle
  imports Main
begin

section \<open>Text files and grep\<close>

text \<open>
  A text file is a string; grep reads it line by line. A final line without a newline
  is still a line, and the empty file has no line at all. Characters are bytes (the C
  locale).
\<close>

fun text_lines :: "string \<Rightarrow> string list" where
  "text_lines [] = []"
| "text_lines (c # cs) =
     (if c = CHR 0x0A then [] # text_lines cs
      else (case text_lines cs of [] \<Rightarrow> [[c]] | l # ls \<Rightarrow> (c # l) # ls))"

text \<open>
  The regular expressions of the scripts, already parsed. \<open>Any\<close> is the dot,
  \<open>OneOf\<close> a bracket expression or a class such as \<open>\s\<close>. Matching is by
  derivatives; \<open>alt\<close> and \<open>seq\<close> only drop the parts that can no longer match.
\<close>

datatype rexp =
    Zero
  | One
  | Chr char
  | Any
  | OneOf "char list"
  | Alt rexp rexp
  | Seq rexp rexp
  | Star rexp

fun nullable :: "rexp \<Rightarrow> bool" where
  "nullable Zero = False"
| "nullable One = True"
| "nullable (Chr c) = False"
| "nullable Any = False"
| "nullable (OneOf cs) = False"
| "nullable (Alt r s) = (nullable r \<or> nullable s)"
| "nullable (Seq r s) = (nullable r \<and> nullable s)"
| "nullable (Star r) = True"

definition alt :: "rexp \<Rightarrow> rexp \<Rightarrow> rexp" where
  "alt r s = (if r = Zero then s else if s = Zero then r else Alt r s)"

definition seq :: "rexp \<Rightarrow> rexp \<Rightarrow> rexp" where
  "seq r s = (if r = Zero \<or> s = Zero then Zero else if r = One then s else Seq r s)"

fun deriv :: "char \<Rightarrow> rexp \<Rightarrow> rexp" where
  "deriv c Zero = Zero"
| "deriv c One = Zero"
| "deriv c (Chr d) = (if c = d then One else Zero)"
| "deriv c Any = One"
| "deriv c (OneOf cs) = (if c \<in> set cs then One else Zero)"
| "deriv c (Alt r s) = alt (deriv c r) (deriv c s)"
| "deriv c (Seq r s) =
     (if nullable r then alt (seq (deriv c r) s) (deriv c s) else seq (deriv c r) s)"
| "deriv c (Star r) = seq (deriv c r) (Star r)"

fun matches :: "rexp \<Rightarrow> string \<Rightarrow> bool" where
  "matches r [] = nullable r"
| "matches r (c # cs) = matches (deriv c r) cs"

fun lit :: "string \<Rightarrow> rexp" where
  "lit [] = One"
| "lit (c # cs) = Seq (Chr c) (lit cs)"

text \<open>
  grep looks for a match anywhere in a line, unless the pattern starts with \<open>^\<close>.
\<close>

datatype grep_pattern = Anywhere rexp | AtStart rexp

fun line_matches :: "grep_pattern \<Rightarrow> string \<Rightarrow> bool" where
  "line_matches (Anywhere r) l = matches (Seq (Star Any) (Seq r (Star Any))) l"
| "line_matches (AtStart r) l = matches (Seq r (Star Any)) l"

section \<open>validate-userscript.sh\<close>

text \<open>
  The shell state of one run: the files (path to content), the two counters and the
  findings printed so far. The banner and progress lines the script echoes are left out.
\<close>

datatype finding = Err string | Warn string

record shell_state =
  files :: "string \<rightharpoonup> string"
  ERRORS :: nat
  WARNINGS :: nat
  printed :: "finding list"

text \<open>A command either ends the script with an exit status or lets it go on.\<close>

datatype outcome = Exit nat shell_state | Continue shell_state

fun and_then :: "outcome \<Rightarrow> (shell_state \<Rightarrow> outcome) \<Rightarrow> outcome" where
  "and_then (Exit n st) f = Exit n st"
| "and_then (Continue st) f = f st"

definition echo :: "finding \<Rightarrow> shell_state \<Rightarrow> shell_state" where
  "echo m st = st\<lparr>printed := printed st @ [m]\<rparr>"

text \<open>
  \<open>grep -q PATTERN FILE\<close> as the condition of an \<open>if\<close>: true when some line matches.
  On a file that cannot be read grep has status 2, which the \<open>if\<close> takes as false.
\<close>

definition grep_q :: "grep_pattern \<Rightarrow> string \<Rightarrow> shell_state \<Rightarrow> bool" where
  "grep_q p path st =
     (case files st path of
        None \<Rightarrow> False
      | Some content \<Rightarrow> list_ex (line_matches p) (text_lines content))"

text \<open>\<open>grep -c PATTERN FILE || true\<close>: the number of matching lines.\<close>

definition grep_c :: "grep_pattern \<Rightarrow> string \<Rightarrow> shell_state \<Rightarrow> nat" where
  "grep_c p path st =
     (case files st path of
        None \<Rightarrow> 0
      | Some content \<Rightarrow> length (filter (line_matches p) (text_lines content)))"

text \<open>
  The script runs under \<open>set -e\<close> (line 473). \<open>((ERRORS++))\<close> is an arithmetic
  command: it increments the variable and its status is 1 when the value of the
  expression, the old value of the variable, is 0. Under \<open>set -e\<close> a command with a
  non-zero status ends the script with that status (bash 4.1 and later, for an
  arithmetic command too). The same holds for \<open>((WARNINGS++))\<close>.
\<close>

definition incr_ERRORS :: "shell_state \<Rightarrow> outcome" where
  "incr_ERRORS st =
     (let st' = st\<lparr>ERRORS := ERRORS st + 1\<rparr>
      in if ERRORS st = 0 then Exit 1 st' else Continue st')"

definition incr_WARNINGS :: "shell_state \<Rightarrow> outcome" where
  "incr_WARNINGS st =
     (let st' = st\<lparr>WARNINGS := WARNINGS st + 1\<rparr>
      in if WARNINGS st = 0 then Exit 1 st' else Continue st')"

definition report_error :: "string \<Rightarrow> shell_state \<Rightarrow> outcome" where
  "report_error m st = incr_ERRORS (echo (Err m) st)"

definition report_warning :: "string \<Rightarrow> shell_state \<Rightarrow> outcome" where
  "report_warning m st = incr_WARNINGS (echo (Warn m) st)"

subsection \<open>Check 1: required metadata\<close>

definition required_fields :: "string list" where
  "required_fields = [''@name'', ''@version'', ''@match'']"

fun required_fields_loop :: "string list \<Rightarrow> string \<Rightarrow> shell_state \<Rightarrow> outcome" where
  "required_fields_loop [] f st = Continue st"
| "required_fields_loop (field # rest) f st =
     (if \<not> grep_q (AtStart (lit (''// '' @ field))) f st
      then (case report_error (''Missing required field: '' @ field) st of
              Exit n st' \<Rightarrow> Exit n st'
            | Continue st' \<Rightarrow> required_fields_loop rest f st')
      else required_fields_loop rest f st)"

subsection \<open>Check 2: grant declarations\<close>

definition gm_functions :: "string list" where
  "gm_functions =
     [''GM_setValue'', ''GM_getValue'', ''GM_xmlhttpRequest'', ''GM_addStyle'',
      ''GM_notification'', ''GM_setClipboard'', ''GM_openInTab'']"

definition grant_line :: "string \<Rightarrow> string" where
  "grant_line func = ''@grant        '' @ func"

fun gm_functions_loop :: "string list \<Rightarrow> string \<Rightarrow> shell_state \<Rightarrow> outcome" where
  "gm_functions_loop [] f st = Continue st"
| "gm_functions_loop (func # rest) f st =
     (if grep_q (Anywhere (lit func)) f st \<and> \<not> grep_q (Anywhere (lit (grant_line func))) f st
      then (case report_error (''Using '' @ func @ '' without @grant declaration'') st of
              Exit n st' \<Rightarrow> Exit n st'
            | Continue st' \<Rightarrow> gm_functions_loop rest f st')
      else gm_functions_loop rest f st)"

definition check_unsafeWindow :: "string \<Rightarrow> shell_state \<Rightarrow> outcome" where
  "check_unsafeWindow f st =
     (if grep_q (Anywhere (lit ''unsafeWindow'')) f st
         \<and> \<not> grep_q (Anywhere (Seq (lit ''@grant'') (Seq (Star Any) (lit ''unsafeWindow'')))) f st
      then report_warning ''Using unsafeWindow without @grant declaration'' st
      else Continue st)"

subsection \<open>Check 3: performance anti-patterns\<close>

definition check_querySelector :: "string \<Rightarrow> shell_state \<Rightarrow> outcome" where
  "check_querySelector f st =
     (if grep_q (Anywhere (Alt (Seq (lit ''for'') (Seq (Star Any) (lit ''querySelector'')))
                               (Seq (lit ''while'') (Seq (Star Any) (lit ''querySelector''))))) f st
      then report_warning ''querySelector in loop detected - consider caching results'' st
      else Continue st)"

definition check_setInterval :: "string \<Rightarrow> shell_state \<Rightarrow> outcome" where
  "check_setInterval f st =
     (if grep_q (Anywhere (lit ''setInterval'')) f st
         \<and> \<not> grep_q (Anywhere (lit ''clearInterval'')) f st
      then report_warning ''setInterval used without clearInterval - potential memory leak'' st
      else Continue st)"

definition check_addEventListener :: "string \<Rightarrow> shell_state \<Rightarrow> outcome" where
  "check_addEventListener f st =
     (if grep_q (Anywhere (lit ''addEventListener'')) f st
         \<and> \<not> grep_q (Anywhere (lit ''removeEventListener'')) f st
      then report_warning
             ''addEventListener used without cleanup - check if removeEventListener needed'' st
      else Continue st)"

subsection \<open>Check 4: security issues\<close>

text \<open>
  In a basic regular expression \<open>(\<close> is an ordinary character; the dot of
  \<open>document.write\<close> and of \<open>console.log\<close> is the dot of the expression, any character.
  In \<open>[\+\$]\<close> the backslashes are members of the set.
\<close>

definition check_eval :: "string \<Rightarrow> shell_state \<Rightarrow> outcome" where
  "check_eval f st =
     (if grep_q (Anywhere (lit ''eval('')) f st
      then report_error ''Using eval() - security risk!'' st
      else Continue st)"

definition space_class :: "char list" where
  "space_class = [CHR 0x20, CHR 0x09, CHR 0x0A, CHR 0x0B, CHR 0x0C, CHR 0x0D]"

definition check_innerHTML :: "string \<Rightarrow> shell_state \<Rightarrow> outcome" where
  "check_innerHTML f st =
     (if grep_q (Anywhere (Seq (lit ''.innerHTML'') (Seq (Star (OneOf space_class))
                   (Seq (Chr CHR ''='') (Seq (Star Any) (OneOf [CHR 0x5C, CHR ''+'', CHR ''$'']))))))
           f st
      then report_warning ''Using innerHTML with variables - potential XSS risk'' st
      else Continue st)"

definition check_document_write :: "string \<Rightarrow> shell_state \<Rightarrow> outcome" where
  "check_document_write f st =
     (if grep_q (Anywhere (Seq (lit ''document'') (Seq Any (lit ''write'')))) f st
      then report_warning ''Using document.write - can cause issues in modern browsers'' st
      else Continue st)"

subsection \<open>Check 5: best practices\<close>

definition check_use_strict :: "string \<Rightarrow> shell_state \<Rightarrow> outcome" where
  "check_use_strict f st =
     (if \<not> grep_q (Anywhere (lit [CHR 0x27, CHR ''u'', CHR ''s'', CHR ''e'', CHR '' '',
                                   CHR ''s'', CHR ''t'', CHR ''r'', CHR ''i'', CHR ''c'', CHR ''t'',
                                   CHR 0x27])) f st
         \<and> \<not> grep_q (Anywhere (lit [CHR 0x22, CHR ''u'', CHR ''s'', CHR ''e'', CHR '' '',
                                   CHR ''s'', CHR ''t'', CHR ''r'', CHR ''i'', CHR ''c'', CHR ''t'',
                                   CHR 0x22])) f st
      then report_warning (''Missing '' @ [CHR 0x27] @ ''use strict'' @ [CHR 0x27] @ '' declaration'') st
      else Continue st)"

definition check_IIFE :: "string \<Rightarrow> shell_state \<Rightarrow> outcome" where
  "check_IIFE f st =
     (if \<not> grep_q (Anywhere (lit ''(function()'')) f st
         \<and> \<not> grep_q (Anywhere (lit ''(() => {'')) f st
      then report_warning ''Not wrapped in IIFE - may pollute global scope'' st
      else Continue st)"

fun decimal :: "nat \<Rightarrow> string" where
  "decimal n =
     (if n < 10 then [char_of (48 + n)] else decimal (n div 10) @ [char_of (48 + n mod 10)])"

definition check_console_log :: "string \<Rightarrow> shell_state \<Rightarrow> outcome" where
  "check_console_log f st =
     (let log_count = grep_c (Anywhere (Seq (lit ''console'') (Seq Any (lit ''log'')))) f st
      in if log_count > 5
         then report_warning (''Found '' @ decimal log_count
                @ '' console.log statements - consider removing or reducing'') st
         else Continue st)"

subsection \<open>Summary and the whole script\<close>

definition summary :: "shell_state \<Rightarrow> outcome" where
  "summary st =
     (if ERRORS st = 0 \<and> WARNINGS st = 0 then Exit 0 st
      else if ERRORS st = 0 then Exit 0 st
      else Exit 1 st)"

definition checks :: "string \<Rightarrow> shell_state \<Rightarrow> outcome" where
  "checks f st =
     and_then (and_then (and_then (and_then (and_then (and_then (and_then (and_then
     (and_then (and_then (and_then (and_then
       (required_fields_loop required_fields f st)
       (gm_functions_loop gm_functions f))
       (check_unsafeWindow f))
       (check_querySelector f))
       (check_setInterval f))
       (check_addEventListener f))
       (check_eval f))
       (check_innerHTML f))
       (check_document_write f))
       (check_use_strict f))
       (check_IIFE f))
       (check_console_log f))
       summary"

definition validate_userscript :: "string \<Rightarrow> (string \<rightharpoonup> string) \<Rightarrow> outcome" where
  "validate_userscript SCRIPT_FILE fs =
     (let st = \<lparr>files = fs, ERRORS = 0, WARNINGS = 0, printed = []\<rparr>
      in if SCRIPT_FILE = [] then Exit 1 st
         else if fs SCRIPT_FILE = None then Exit 1 st
         else checks SCRIPT_FILE st)"

fun exit_status :: "outcome \<Rightarrow> nat option" where
  "exit_status (Exit n st) = Some n"
| "exit_status (Continue st) = None"

fun final_state :: "outcome \<Rightarrow> shell_state" where
  "final_state (Exit n st) = st"
| "final_state (Continue st) = st"

text \<open>
  A state in which nothing has been found yet, and the outcomes of a run that ends at
  its first finding: status 1 with that one finding printed, or status 0 with none.
\<close>

definition clean :: "shell_state \<Rightarrow> bool" where
  "clean st = (ERRORS st = 0 \<and> WARNINGS st = 0 \<and> printed st = [])"

fun first_finding_ends :: "outcome \<Rightarrow> bool" where
  "first_finding_ends (Continue st) = clean st"
| "first_finding_ends (Exit n st) =
     (if printed st = [] then n = 0 else n = 1 \<and> length (printed st) = 1)"

text \<open>
  The error finding for a GM function used without its grant line, and the outcomes of
  a command that leaves the files alone and does not print a given finding.
\<close>

definition grant_error :: "string \<Rightarrow> finding" where
  "grant_error func = Err (''Using '' @ func @ '' without @grant declaration'')"

definition keeps_out :: "finding \<Rightarrow> (string \<rightharpoonup> string) \<Rightarrow> outcome \<Rightarrow> bool" where
  "keeps_out m fs r = (files (final_state r) = fs \<and> m \<notin> set (printed (final_state r)))"

subsection \<open>Sample scripts\<close>

text \<open>A script with the three required fields and no strict-mode marker.\<close>

definition warning_only_script :: string where
  "warning_only_script =
     ''// @name Demo\<newline>// @version 1.0\<newline>// @match https://example.com/*\<newline>''
     @ ''(function() {\<newline>})();\<newline>''"

text \<open>A script that declares \<open>@match\<close> only: \<open>@name\<close> and \<open>@version\<close> are missing.\<close>

definition two_fields_missing_script :: string where
  "two_fields_missing_script = ''// @match https://example.com/*\<newline>''"

text \<open>
  A script with the three required fields that calls \<open>GM_setValue\<close> and
  \<open>GM_getValue\<close> and declares no grant.
\<close>

definition two_grants_missing_script :: string where
  "two_grants_missing_script =
     ''// @name Demo\<newline>// @version 1.0\<newline>// @match https://example.com/*\<newline>''
     @ ''GM_setValue(1, GM_getValue(2));\<newline>''"

section \<open>The YouTube timestamp bookmarker (README example)\<close>

text \<open>
  A bookmark is an object with the fields \<open>time\<close> and \<open>note\<close>. The script keeps, per
  video, the array of bookmarks under the key \<open>bookmarks_\<close> plus the video id in the
  userscript store: \<open>saveBookmarks\<close> writes \<open>JSON.stringify(bookmarks)\<close> with
  \<open>GM_setValue\<close>, and \<open>getBookmarks\<close> reads it back with \<open>JSON.parse\<close>, with
  \<open>'[]'\<close> as the default. The stored string is represented by the array it encodes.
\<close>

record bookmark =
  time :: int
  note_text :: string

text \<open>
  What the functions read from the page: the \<open>v\<close> parameter of the address (null when
  absent) and the whole seconds of the video's position (no video element: none).
\<close>

record page =
  video_id :: "string option"
  video_time :: "int option"

type_synonym gm_store = "string \<rightharpoonup> bookmark list"

definition getVideoId :: "page \<Rightarrow> string option" where
  "getVideoId p = video_id p"

definition getCurrentTime :: "page \<Rightarrow> int" where
  "getCurrentTime p = (case video_time p of Some t \<Rightarrow> t | None \<Rightarrow> 0)"

definition getStorageKey :: "page \<Rightarrow> string" where
  "getStorageKey p =
     ''bookmarks_'' @ (case getVideoId p of Some v \<Rightarrow> v | None \<Rightarrow> ''null'')"

definition getBookmarks :: "page \<Rightarrow> gm_store \<Rightarrow> bookmark list" where
  "getBookmarks p store = (case store (getStorageKey p) of Some bs \<Rightarrow> bs | None \<Rightarrow> [])"

definition saveBookmarks :: "page \<Rightarrow> bookmark list \<Rightarrow> gm_store \<Rightarrow> gm_store" where
  "saveBookmarks p bookmarks store = store(getStorageKey p \<mapsto> bookmarks)"

text \<open>
  \<open>bookmarks.sort((a, b) => a.time - b.time)\<close> is a stable sort by \<open>time\<close>, as
  \<open>sort_key\<close> is.
\<close>

definition addBookmark :: "page \<Rightarrow> gm_store \<Rightarrow> gm_store" where
  "addBookmark p store =
     (let t = getCurrentTime p; bookmarks = getBookmarks p store
      in if list_ex (\<lambda>b. time b = t) bookmarks then store
         else saveBookmarks p
                (sort_key time (bookmarks @ [\<lparr>time = t, note_text = []\<rparr>])) store)"

definition deleteBookmark :: "page \<Rightarrow> int \<Rightarrow> gm_store \<Rightarrow> gm_store" where
  "deleteBookmark p t store =
     saveBookmarks p (filter (\<lambda>b. time b \<noteq> t) (getBookmarks p store)) store"

text \<open>
  The store is written by these two functions only, each run from a click. The states
  the store can be in are those after a sequence of clicks, starting with no entry.
\<close>

datatype user_action = AddBookmark page | DeleteBookmark page int

fun perform :: "gm_store \<Rightarrow> user_action \<Rightarrow> gm_store" where
  "perform store (AddBookmark p) = addBookmark p store"
| "perform store (DeleteBookmark p t) = deleteBookmark p t store"

definition after_actions :: "user_action list \<Rightarrow> gm_store" where
  "after_actions acts = foldl perform Map.empty acts"

definition entry_ok :: "bookmark list \<Rightarrow> bool" where
  "entry_ok bs = (sorted (map time bs) \<and> distinct (map time bs))"

definition store_ok :: "gm_store \<Rightarrow> bool" where
  "store_ok store = (\<forall>k. entry_ok (case store k of Some bs \<Rightarrow> bs | None \<Rightarrow> []))"

definition page_at_90 :: page where
  "page_at_90 = \<lparr>video_id = Some ''abc'', video_time = Some 90\<rparr>"

definition page_at_30 :: page where
  "page_at_30 = \<lparr>video_id = Some ''abc'', video_time = Some 30\<rparr>"

section \<open>The SPA template: RouteHandler\<close>

text \<open>
  A string pattern is turned into the source of a regular expression by two global
  replacements: \<open>.replace(/:[^\s/]+/g, '([^/]+)')\<close> and \<open>.replace(/\*/g, '.*')\<close>.
  Strings are sequences of code units below 256; of these, \<open>\s\<close> matches the seven below.
\<close>

definition js_space :: "char \<Rightarrow> bool" where
  "js_space c =
     (c \<in> set [CHR 0x09, CHR 0x0A, CHR 0x0B, CHR 0x0C, CHR 0x0D, CHR 0x20, CHR 0xA0])"

definition param_char :: "char \<Rightarrow> bool" where
  "param_char c = (\<not> js_space c \<and> c \<noteq> CHR ''/'')"

function replace_params :: "string \<Rightarrow> string" where
  "replace_params [] = []"
| "replace_params (c # cs) =
     (if c = CHR '':'' \<and> takeWhile param_char cs \<noteq> []
      then ''([^/]+)'' @ replace_params (dropWhile param_char cs)
      else c # replace_params cs)"
  by pat_completeness auto
termination
  by (relation "measure length") (auto simp: length_dropWhile_le less_Suc_eq_le)

fun replace_stars :: "string \<Rightarrow> string" where
  "replace_stars [] = []"
| "replace_stars (c # cs) =
     (if c = CHR ''*'' then ''.*'' @ replace_stars cs else c # replace_stars cs)"

text \<open>
  A route's pattern is a RegExp object or a string. The regular expression engine is
  the browser's: \<open>new_RegExp\<close> compiles a source (\<open>None\<close>: it throws a SyntaxError) and
  \<open>String_match url regex\<close> is \<open>url.match(regex)\<close>, null or the match array: for
  an expression without the global flag, the whole match followed by the captured groups.
\<close>

datatype 'rx route_pattern = RegExpPattern 'rx | StringPattern string

record ('rx, 'h) route =
  pattern :: "'rx route_pattern"
  handler :: 'h

record ('rx, 'h) RouteHandler =
  routes :: "('rx, 'h) route list"

record ('rx, 'g) regexp_engine =
  new_RegExp :: "string \<Rightarrow> 'rx option"
  String_match :: "string \<Rightarrow> 'rx \<Rightarrow> 'g list option"

datatype js_error = SyntaxError

definition RouteHandler_new :: "('rx, 'h) RouteHandler" where
  "RouteHandler_new = \<lparr>routes = []\<rparr>"

definition RouteHandler_add ::
  "'rx route_pattern \<Rightarrow> 'h \<Rightarrow> ('rx, 'h) RouteHandler \<Rightarrow> ('rx, 'h) RouteHandler" where
  "RouteHandler_add p h this = this\<lparr>routes := routes this @ [\<lparr>pattern = p, handler = h\<rparr>]\<rparr>"

definition route_regex :: "('rx, 'g) regexp_engine \<Rightarrow> 'rx route_pattern \<Rightarrow> 'rx option" where
  "route_regex E p =
     (case p of
        RegExpPattern rx \<Rightarrow> Some rx
      | StringPattern s \<Rightarrow> new_RegExp E (''^'' @ replace_stars (replace_params s) @ ''$''))"

text \<open>The loop of \<open>match(url)\<close>; \<open>match.slice(1)\<close> is the tail of the match array.\<close>

fun match_routes ::
  "('rx, 'g) regexp_engine \<Rightarrow> ('rx, 'h) route list \<Rightarrow> string
     \<Rightarrow> js_error + ('h \<times> 'g list) option" where
  "match_routes E [] url = Inr None"
| "match_routes E (r # rs) url =
     (case route_regex E (pattern r) of
        None \<Rightarrow> Inl SyntaxError
      | Some regex \<Rightarrow>
          (case String_match E url regex of
             Some m \<Rightarrow> Inr (Some (handler r, tl m))
           | None \<Rightarrow> match_routes E rs url))"

definition RouteHandler_match ::
  "('rx, 'g) regexp_engine \<Rightarrow> ('rx, 'h) RouteHandler \<Rightarrow> string
     \<Rightarrow> js_error + ('h \<times> 'g list) option" where
  "RouteHandler_match E this url = match_routes E (routes this) url"

text \<open>
  \<open>handle(url)\<close> returns whether a route matched; the calls it makes, each a handler
  with its positional arguments, are returned next to it.
\<close>

definition RouteHandler_handle ::
  "('rx, 'g) regexp_engine \<Rightarrow> ('rx, 'h) RouteHandler \<Rightarrow> string
     \<Rightarrow> js_error + (bool \<times> ('h \<times> 'g list) list)" where
  "RouteHandler_handle E this url =
     (case RouteHandler_match E this url of
        Inl e \<Rightarrow> Inl e
      | Inr None \<Rightarrow> Inr (False, [])
      | Inr (Some (h, params)) \<Rightarrow> Inr (True, [(h, params)]))"

text \<open>
  For closed examples: what the engine answers on the two expressions that the patterns
  \<open>/user/:id\<close> and \<open>/user/*\<close> compile to (a RegExp object is represented by its source).
\<close>

definition sample_engine :: "(string, string) regexp_engine" where
  "sample_engine =
     \<lparr>new_RegExp = (\<lambda>src. Some src),
      String_match = (\<lambda>url rx.
        if rx = ''^/user/([^/]+)$''
        then (if take 6 url = ''/user/'' \<and> drop 6 url \<noteq> [] \<and> CHR ''/'' \<notin> set (drop 6 url)
              then Some [url, drop 6 url] else None)
        else if rx = ''^/user/.*$''
        then (if take 6 url = ''/user/'' \<and> CHR 0x0A \<notin> set (drop 6 url)
                 \<and> CHR 0x0D \<notin> set (drop 6 url)
              then Some [url] else None)
        else None)\<rparr>"

datatype sample_handler = UserPage | AnyUserPath

definition route_A :: "(string, sample_handler) route" where
  "route_A = \<lparr>pattern = StringPattern ''/user/:id'', handler = UserPage\<rparr>"

definition route_B :: "(string, sample_handler) route" where
  "route_B = \<lparr>pattern = StringPattern ''/user/*'', handler = AnyUserPath\<rparr>"

section \<open>waitForElement (SPA and advanced templates)\<close>

text \<open>
  The promise and the observer of one call. \<open>calls\<close> lists, in order, the calls the
  code makes to \<open>observer.disconnect\<close>, \<open>resolve\<close> and \<open>reject\<close>. Resolving or
  rejecting a promise that is already settled changes nothing.
\<close>

datatype rejection = Timeout string | TypeError

datatype 'e promise_state = Pending | Resolved 'e | Rejected rejection

datatype 'e call = Disconnect | Resolve 'e | Reject rejection

record 'e waiting =
  startTime :: int
  timeout :: int
  message :: string
  observing :: bool
  promise :: "'e promise_state"
  calls :: "'e call list"

definition resolve :: "'e \<Rightarrow> 'e waiting \<Rightarrow> 'e waiting" where
  "resolve e w =
     w\<lparr>promise := (if promise w = Pending then Resolved e else promise w),
       calls := calls w @ [Resolve e]\<rparr>"

definition reject :: "rejection \<Rightarrow> 'e waiting \<Rightarrow> 'e waiting" where
  "reject r w =
     w\<lparr>promise := (if promise w = Pending then Rejected r else promise w),
       calls := calls w @ [Reject r]\<rparr>"

definition disconnect :: "'e waiting \<Rightarrow> 'e waiting" where
  "disconnect w = w\<lparr>observing := False, calls := calls w @ [Disconnect]\<rparr>"

text \<open>
  The body of the promise, run at the call: \<open>now\<close> is \<open>Date.now()\<close>, \<open>element\<close> the
  result of \<open>document.querySelector(selector)\<close> and \<open>has_body\<close> tells whether
  \<open>document.body\<close> exists (\<open>observer.observe(null, ...)\<close> throws a TypeError, which
  rejects the promise). The two templates differ in the text of the timeout message only.
\<close>

definition wait_with ::
  "string \<Rightarrow> string \<Rightarrow> int \<Rightarrow> int \<Rightarrow> 'e option \<Rightarrow> bool \<Rightarrow> 'e waiting" where
  "wait_with prefix selector tmo now element has_body =
     (let w = \<lparr>startTime = now, timeout = tmo, message = prefix @ selector,
                observing = False, promise = Pending, calls = []\<rparr>
      in case element of
           Some e \<Rightarrow> resolve e w
         | None \<Rightarrow> if has_body then w\<lparr>observing := True\<rparr> else reject TypeError w)"

definition waitForElement :: "string \<Rightarrow> int \<Rightarrow> int \<Rightarrow> 'e option \<Rightarrow> bool \<Rightarrow> 'e waiting" where
  "waitForElement selector tmo now element has_body =
     wait_with ''Timeout: '' selector tmo now element has_body"

definition Utils_waitForElement ::
  "string \<Rightarrow> int \<Rightarrow> int \<Rightarrow> 'e option \<Rightarrow> bool \<Rightarrow> 'e waiting" where
  "Utils_waitForElement selector tmo now element has_body =
     wait_with ''Timeout waiting for: '' selector tmo now element has_body"

text \<open>
  What happens afterwards: a mutation notification, with the clock and the result of
  the selector query at that moment, runs the observer's callback if the observer is
  still connected. The code sets no timer, so time that passes without a mutation
  runs nothing.
\<close>

datatype 'e event = Mutation int "'e option" | TimePasses int

fun on_event :: "'e waiting \<Rightarrow> 'e event \<Rightarrow> 'e waiting" where
  "on_event w (TimePasses now) = w"
| "on_event w (Mutation now element) =
     (if \<not> observing w then w
      else case element of
             Some e \<Rightarrow> resolve e (disconnect w)
           | None \<Rightarrow>
               if now - startTime w > timeout w
               then reject (Timeout (message w)) (disconnect w)
               else w)"

definition after_events :: "'e waiting \<Rightarrow> 'e event list \<Rightarrow> 'e waiting" where
  "after_events w evs = foldl on_event w evs"

fun absent_in :: "'e event \<Rightarrow> bool" where
  "absent_in (Mutation now element) = (element = None)"
| "absent_in (TimePasses now) = True"

fun late_mutation :: "int \<Rightarrow> int \<Rightarrow> 'e event \<Rightarrow> bool" where
  "late_mutation start tmo (Mutation now element) = (now - start > tmo)"
| "late_mutation start tmo (TimePasses now) = False"

fun is_timeout :: "'e call \<Rightarrow> bool" where
  "is_timeout (Reject (Timeout m)) = True"
| "is_timeout c = False"

definition timeout_outcomes :: "'e waiting \<Rightarrow> nat" where
  "timeout_outcomes w = length (filter is_timeout (calls w))"

definition disconnects :: "'e waiting \<Rightarrow> nat" where
  "disconnects w = length (filter (\<lambda>c. c = Disconnect) (calls w))"

section \<open>generate-userscript.sh\<close>

subsection \<open>The shell's text plumbing\<close>





subsection \<open>The title: \<open>sed 's/-/ /g' | sed 's/\b\(.\)/\u\1/g'\<close>\<close>














subsection \<open>The icon domain: \<open>sed -E 's|https?://([^/]+).*|\1|' | sed 's/\*/example.com/'\<close>\<close>







subsection \<open>The script\<close>


















section \<open>Properties of the validator\<close>

subsection \<open>The files are only read\<close>

lemma files_echo: "files (echo m st) = files st"
  by (simp add: echo_def)

lemma files_report_error: "files (final_state (report_error m st)) = files st"
  by (simp add: report_error_def incr_ERRORS_def Let_def files_echo)

lemma files_report_warning: "files (final_state (report_warning m st)) = files st"
  by (simp add: report_warning_def incr_WARNINGS_def Let_def files_echo)

lemma files_and_then:
  assumes "files (final_state r) = fs"
    and "\<And>st. files st = fs \<Longrightarrow> files (final_state (g st)) = fs"
  shows "files (final_state (and_then r g)) = fs"
  using assms by (cases r) auto

lemma files_required_fields_loop:
  "files (final_state (required_fields_loop flds f st)) = files st"
proof (induction flds arbitrary: st)
  case Nil
  then show ?case by simp
next
  case (Cons field rest)
  show ?case
  proof (cases "report_error (''Missing required field: '' @ field) st")
    case (Exit n st')
    with files_report_error [of "''Missing required field: '' @ field" st] show ?thesis
      by (simp add: Cons.IH)
  next
    case (Continue st')
    with files_report_error [of "''Missing required field: '' @ field" st] show ?thesis
      by (simp add: Cons.IH)
  qed
qed

lemma files_gm_functions_loop:
  "files (final_state (gm_functions_loop funcs f st)) = files st"
proof (induction funcs arbitrary: st)
  case Nil
  then show ?case by simp
next
  case (Cons func rest)
  show ?case
  proof (cases "report_error (''Using '' @ func @ '' without @grant declaration'') st")
    case (Exit n st')
    with files_report_error [of "''Using '' @ func @ '' without @grant declaration''" st]
    show ?thesis by (simp add: Cons.IH)
  next
    case (Continue st')
    with files_report_error [of "''Using '' @ func @ '' without @grant declaration''" st]
    show ?thesis by (simp add: Cons.IH)
  qed
qed

lemma files_simple_checks:
  "files (final_state (check_unsafeWindow f st)) = files st"
  "files (final_state (check_querySelector f st)) = files st"
  "files (final_state (check_setInterval f st)) = files st"
  "files (final_state (check_addEventListener f st)) = files st"
  "files (final_state (check_eval f st)) = files st"
  "files (final_state (check_innerHTML f st)) = files st"
  "files (final_state (check_document_write f st)) = files st"
  "files (final_state (check_use_strict f st)) = files st"
  "files (final_state (check_IIFE f st)) = files st"
  "files (final_state (check_console_log f st)) = files st"
  "files (final_state (summary st)) = files st"
  by (simp_all add: check_unsafeWindow_def check_querySelector_def check_setInterval_def
      check_addEventListener_def check_eval_def check_innerHTML_def check_document_write_def
      check_use_strict_def check_IIFE_def check_console_log_def summary_def Let_def
      files_report_error files_report_warning)

lemma files_checks: "files (final_state (checks f st)) = files st"
  unfolding checks_def
  by (intro files_and_then)
     (simp_all add: files_required_fields_loop files_gm_functions_loop files_simple_checks)

lemma files_validate_userscript: "files (final_state (validate_userscript f fs)) = fs"
  by (simp add: validate_userscript_def Let_def files_checks)

text \<open>
  C8. Validating is pure and repeatable: the run leaves every file as it was, and a
  second run on the files the first one left gives the same exit status, the same error
  and warning counts and the same findings.
\<close>

theorem validate_userscript_idempotent:
  "files (final_state (validate_userscript f fs)) = fs
   \<and> exit_status (validate_userscript f (files (final_state (validate_userscript f fs))))
       = exit_status (validate_userscript f fs)
   \<and> ERRORS (final_state (validate_userscript f (files (final_state (validate_userscript f fs)))))
       = ERRORS (final_state (validate_userscript f fs))
   \<and> WARNINGS (final_state (validate_userscript f (files (final_state (validate_userscript f fs)))))
       = WARNINGS (final_state (validate_userscript f fs))
   \<and> printed (final_state (validate_userscript f (files (final_state (validate_userscript f fs)))))
       = printed (final_state (validate_userscript f fs))"
  by (simp add: files_validate_userscript)

subsection \<open>The run ends at the first finding\<close>

text \<open>
  Both counters start at 0, so the first \<open>((ERRORS++))\<close> or \<open>((WARNINGS++))\<close> of a
  run has status 1 and \<open>set -e\<close> ends the run there. On an existing file the
  validator therefore prints at most one finding, and its exit status is 0 exactly when
  it prints none.
\<close>

lemma report_error_clean: "clean st \<Longrightarrow> first_finding_ends (report_error m st)"
  by (simp add: clean_def report_error_def incr_ERRORS_def echo_def Let_def)

lemma report_warning_clean: "clean st \<Longrightarrow> first_finding_ends (report_warning m st)"
  by (simp add: clean_def report_warning_def incr_WARNINGS_def echo_def Let_def)

lemma report_error_exits: "clean st \<Longrightarrow> \<exists>n st'. report_error m st = Exit n st'"
  by (simp add: clean_def report_error_def incr_ERRORS_def echo_def Let_def)

lemma and_then_first_finding:
  assumes "first_finding_ends r" and "\<And>st. clean st \<Longrightarrow> first_finding_ends (g st)"
  shows "first_finding_ends (and_then r g)"
  using assms by (cases r) auto

lemma required_fields_loop_first_finding:
  "clean st \<Longrightarrow> first_finding_ends (required_fields_loop flds f st)"
proof (induction flds)
  case Nil
  then show ?case by simp
next
  case (Cons field rest)
  from report_error_exits [OF Cons.prems, of "''Missing required field: '' @ field"]
  obtain n st' where e: "report_error (''Missing required field: '' @ field) st = Exit n st'"
    by blast
  with report_error_clean [OF Cons.prems, of "''Missing required field: '' @ field"] Cons
  show ?case by simp
qed

lemma gm_functions_loop_first_finding:
  "clean st \<Longrightarrow> first_finding_ends (gm_functions_loop funcs f st)"
proof (induction funcs)
  case Nil
  then show ?case by simp
next
  case (Cons func rest)
  from report_error_exits [OF Cons.prems, of "''Using '' @ func @ '' without @grant declaration''"]
  obtain n st' where
    e: "report_error (''Using '' @ func @ '' without @grant declaration'') st = Exit n st'"
    by blast
  with report_error_clean [OF Cons.prems, of "''Using '' @ func @ '' without @grant declaration''"]
    Cons
  show ?case by simp
qed

lemma simple_checks_first_finding:
  assumes "clean st"
  shows "first_finding_ends (check_unsafeWindow f st)"
    "first_finding_ends (check_querySelector f st)"
    "first_finding_ends (check_setInterval f st)"
    "first_finding_ends (check_addEventListener f st)"
    "first_finding_ends (check_eval f st)"
    "first_finding_ends (check_innerHTML f st)"
    "first_finding_ends (check_document_write f st)"
    "first_finding_ends (check_use_strict f st)"
    "first_finding_ends (check_IIFE f st)"
    "first_finding_ends (check_console_log f st)"
  using assms
  by (simp_all add: check_unsafeWindow_def check_querySelector_def check_setInterval_def
      check_addEventListener_def check_eval_def check_innerHTML_def check_document_write_def
      check_use_strict_def check_IIFE_def check_console_log_def Let_def
      report_error_clean report_warning_clean)

lemma summary_first_finding: "clean st \<Longrightarrow> first_finding_ends (summary st)"
  by (simp add: summary_def clean_def)

lemma summary_exits: "\<exists>n st'. summary st = Exit n st'"
  by (simp add: summary_def)

lemma checks_first_finding: "clean st \<Longrightarrow> first_finding_ends (checks f st)"
  unfolding checks_def
  by (intro and_then_first_finding)
     (simp_all add: required_fields_loop_first_finding gm_functions_loop_first_finding
        simple_checks_first_finding summary_first_finding)

lemma and_then_exits:
  assumes "\<And>st. \<exists>n st'. g st = Exit n st'"
  shows "\<exists>n st'. and_then r g = Exit n st'"
  using assms by (cases r) auto

lemma checks_exits: "\<exists>n st'. checks f st = Exit n st'"
  unfolding checks_def by (rule and_then_exits) (rule summary_exits)

lemma validate_userscript_exits: "\<exists>n st'. validate_userscript f fs = Exit n st'"
  by (simp add: validate_userscript_def Let_def checks_exits)

lemma validate_userscript_first_finding:
  assumes "f \<noteq> []" and "fs f \<noteq> None"
  shows "exit_status (validate_userscript f fs)
           = Some (if printed (final_state (validate_userscript f fs)) = [] then 0 else 1)
         \<and> length (printed (final_state (validate_userscript f fs))) \<le> 1"
proof -
  have "clean \<lparr>files = fs, ERRORS = 0, WARNINGS = 0, printed = []\<rparr>" by (simp add: clean_def)
  then have "first_finding_ends (checks f \<lparr>files = fs, ERRORS = 0, WARNINGS = 0, printed = []\<rparr>)"
    by (rule checks_first_finding)
  then have ff: "first_finding_ends (validate_userscript f fs)"
    using assms by (simp add: validate_userscript_def Let_def)
  from validate_userscript_exits obtain n st' where "validate_userscript f fs = Exit n st'"
    by blast
  with ff show ?thesis by (auto split: if_splits)
qed

subsection \<open>What holds of the required fields and of the grants\<close>

text \<open>
  A file that lacks one of the required fields has exit status 1.
\<close>

lemma required_fields_loop_missing:
  assumes "clean st" and "field \<in> set flds"
    and "\<not> grep_q (AtStart (lit (''// '' @ field))) f st"
  shows "\<exists>st'. required_fields_loop flds f st = Exit 1 st'"
  using assms(2)
proof (induction flds)
  case Nil
  then show ?case by simp
next
  case (Cons x rest)
  have ex: "\<exists>st'. report_error m st = Exit 1 st'" for m
    using assms(1) by (simp add: clean_def report_error_def incr_ERRORS_def echo_def Let_def)
  show ?case
  proof (cases "grep_q (AtStart (lit (''// '' @ x))) f st")
    case True
    with assms(3) have "x \<noteq> field" by auto
    with Cons True show ?thesis by simp
  next
    case False
    from ex [of "''Missing required field: '' @ x"] obtain st' where
      "report_error (''Missing required field: '' @ x) st = Exit 1 st'" by blast
    with False show ?thesis by simp
  qed
qed

lemma validate_userscript_field_missing:
  assumes "f \<noteq> []" and "fs f = Some content" and "field \<in> set required_fields"
    and "\<not> list_ex (line_matches (AtStart (lit (''// '' @ field)))) (text_lines content)"
  shows "exit_status (validate_userscript f fs) = Some 1"
proof -
  let ?st = "\<lparr>files = fs, ERRORS = 0, WARNINGS = 0, printed = []\<rparr>"
  have "clean ?st" by (simp add: clean_def)
  moreover have "\<not> grep_q (AtStart (lit (''// '' @ field))) f ?st"
    using assms(2,4) by (simp add: grep_q_def)
  ultimately obtain st' where "required_fields_loop required_fields f ?st = Exit 1 st'"
    using required_fields_loop_missing [OF _ assms(3)] by blast
  then have "checks f ?st = Exit 1 st'" by (simp add: checks_def)
  then show ?thesis using assms(1,2) by (simp add: validate_userscript_def Let_def)
qed

text \<open>
  A file with the line \<open>@grant        func\<close> (eight spaces, as the script spells it) gets
  no error finding for \<open>func\<close>.
\<close>

lemma keeps_out_and_then:
  assumes "keeps_out m fs r"
    and "\<And>st. files st = fs \<Longrightarrow> m \<notin> set (printed st) \<Longrightarrow> keeps_out m fs (g st)"
  shows "keeps_out m fs (and_then r g)"
  using assms by (cases r) (auto simp: keeps_out_def)

lemma keeps_out_report_error:
  "m \<notin> set (printed st) \<Longrightarrow> m \<noteq> Err e \<Longrightarrow> keeps_out m (files st) (report_error e st)"
  by (simp add: keeps_out_def report_error_def incr_ERRORS_def echo_def Let_def)

lemma keeps_out_report_warning:
  "m \<notin> set (printed st) \<Longrightarrow> m \<noteq> Warn e \<Longrightarrow> keeps_out m (files st) (report_warning e st)"
  by (simp add: keeps_out_def report_warning_def incr_WARNINGS_def echo_def Let_def)

lemma keeps_out_Continue: "m \<notin> set (printed st) \<Longrightarrow> keeps_out m (files st) (Continue st)"
  by (simp add: keeps_out_def)

lemma keeps_out_required_fields_loop:
  "grant_error func \<notin> set (printed st)
     \<Longrightarrow> keeps_out (grant_error func) (files st) (required_fields_loop flds f st)"
proof (induction flds arbitrary: st)
  case Nil
  then show ?case by (simp add: keeps_out_def)
next
  case (Cons x rest)
  show ?case
  proof (cases "grep_q (AtStart (lit (''// '' @ x))) f st")
    case True
    with Cons show ?thesis by simp
  next
    case False
    have ne: "grant_error func \<noteq> Err (''Missing required field: '' @ x)"
      by (simp add: grant_error_def)
    from keeps_out_report_error [OF Cons.prems ne]
    have k: "keeps_out (grant_error func) (files st)
               (report_error (''Missing required field: '' @ x) st)" .
    show ?thesis
    proof (cases "report_error (''Missing required field: '' @ x) st")
      case (Exit n st')
      with k False show ?thesis by (simp add: keeps_out_def)
    next
      case (Continue st')
      with k have "files st' = files st" and "grant_error func \<notin> set (printed st')"
        by (simp_all add: keeps_out_def)
      with Cons.IH [of st'] Continue False show ?thesis by simp
    qed
  qed
qed

lemma keeps_out_gm_functions_loop:
  assumes "grep_q (Anywhere (lit (grant_line func))) f st"
    and "grant_error func \<notin> set (printed st)"
  shows "keeps_out (grant_error func) (files st) (gm_functions_loop funcs f st)"
  using assms
proof (induction funcs arbitrary: st)
  case Nil
  then show ?case by (simp add: keeps_out_def)
next
  case (Cons x rest)
  show ?case
  proof (cases "grep_q (Anywhere (lit x)) f st \<and> \<not> grep_q (Anywhere (lit (grant_line x))) f st")
    case False
    with Cons show ?thesis by auto
  next
    case True
    with Cons.prems(1) have "x \<noteq> func" by auto
    then have ne: "grant_error func \<noteq> Err (''Using '' @ x @ '' without @grant declaration'')"
      by (simp add: grant_error_def)
    from keeps_out_report_error [OF Cons.prems(2) ne]
    have k: "keeps_out (grant_error func) (files st)
               (report_error (''Using '' @ x @ '' without @grant declaration'') st)" .
    show ?thesis
    proof (cases "report_error (''Using '' @ x @ '' without @grant declaration'') st")
      case (Exit n st')
      with k True show ?thesis by (simp add: keeps_out_def)
    next
      case (Continue st')
      with k have fl: "files st' = files st" and "grant_error func \<notin> set (printed st')"
        by (simp_all add: keeps_out_def)
      moreover from fl Cons.prems(1) have "grep_q (Anywhere (lit (grant_line func))) f st'"
        by (simp add: grep_q_def)
      ultimately show ?thesis using Cons.IH [of st'] Continue True by simp
    qed
  qed
qed

lemma eval_message: "grant_error func \<noteq> Err ''Using eval() - security risk!''"
proof
  assume "grant_error func = Err ''Using eval() - security risk!''"
  then have "''Using '' @ func @ '' without @grant declaration'' = ''Using eval() - security risk!''"
    by (simp add: grant_error_def)
  then have "length (''Using '' @ func @ '' without @grant declaration'')
               = length ''Using eval() - security risk!''"
    by (rule arg_cong)
  then show False by simp
qed

lemma keeps_out_simple_checks:
  assumes "grant_error func \<notin> set (printed st)"
  shows "keeps_out (grant_error func) (files st) (check_unsafeWindow f st)"
    "keeps_out (grant_error func) (files st) (check_querySelector f st)"
    "keeps_out (grant_error func) (files st) (check_setInterval f st)"
    "keeps_out (grant_error func) (files st) (check_addEventListener f st)"
    "keeps_out (grant_error func) (files st) (check_eval f st)"
    "keeps_out (grant_error func) (files st) (check_innerHTML f st)"
    "keeps_out (grant_error func) (files st) (check_document_write f st)"
    "keeps_out (grant_error func) (files st) (check_use_strict f st)"
    "keeps_out (grant_error func) (files st) (check_IIFE f st)"
    "keeps_out (grant_error func) (files st) (check_console_log f st)"
    "keeps_out (grant_error func) (files st) (summary st)"
  using assms eval_message [of func]
  by (simp_all add: check_unsafeWindow_def check_querySelector_def check_setInterval_def
      check_addEventListener_def check_eval_def check_innerHTML_def check_document_write_def
      check_use_strict_def check_IIFE_def check_console_log_def summary_def Let_def
      keeps_out_report_error keeps_out_report_warning keeps_out_Continue grant_error_def)
     (simp_all add: keeps_out_def)

lemma validate_userscript_granted:
  assumes "fs f = Some content"
    and "list_ex (line_matches (Anywhere (lit (grant_line func)))) (text_lines content)"
  shows "grant_error func \<notin> set (printed (final_state (validate_userscript f fs)))"
proof -
  let ?st = "\<lparr>files = fs, ERRORS = 0, WARNINGS = 0, printed = []\<rparr>"
  have g: "files st = fs \<Longrightarrow> grep_q (Anywhere (lit (grant_line func))) f st"
    for st :: shell_state
    using assms by (simp add: grep_q_def)
  have "keeps_out (grant_error func) fs (checks f ?st)"
    unfolding checks_def
  proof (intro keeps_out_and_then)
    show "keeps_out (grant_error func) fs (required_fields_loop required_fields f ?st)"
      using keeps_out_required_fields_loop [of func ?st] by simp
  next
    fix st :: shell_state
    assume "files st = fs" and "grant_error func \<notin> set (printed st)"
    then show "keeps_out (grant_error func) fs (gm_functions_loop gm_functions f st)"
      using keeps_out_gm_functions_loop [OF g, of st] by simp
  qed (use keeps_out_simple_checks in auto)
  then show ?thesis
    by (simp add: validate_userscript_def Let_def keeps_out_def)
qed

subsection \<open>The exit status on concrete scripts\<close>

text \<open>
  C1. The claim: the exit status is 0 whenever there is no error finding, whatever the
  number of warnings. On \<open>warning_only_script\<close> the validator prints one warning and no
  error, and \<open>((WARNINGS++))\<close> under \<open>set -e\<close> ends the run with status 1: the
  summary (lines 631 to 644), which would exit 0 here, is never reached.
\<close>

theorem validate_userscript_warning_only_exit:
  "exit_status (validate_userscript ''demo.user.js'' [''demo.user.js'' \<mapsto> warning_only_script])
     = Some 1
   \<and> ERRORS (final_state
        (validate_userscript ''demo.user.js'' [''demo.user.js'' \<mapsto> warning_only_script])) = 0
   \<and> printed (final_state
        (validate_userscript ''demo.user.js'' [''demo.user.js'' \<mapsto> warning_only_script]))
     = [Warn (''Missing '' @ [CHR 0x27] @ ''use strict'' @ [CHR 0x27] @ '' declaration'')]"
  by code_simp

text \<open>
  C2. The claim: one error finding for each missing field, and a failing exit status.
  On \<open>two_fields_missing_script\<close> the status is 1, but the only finding is the one for
  \<open>@name\<close>: \<open>((ERRORS++))\<close> under \<open>set -e\<close> ends the run inside the first round of
  the loop, before \<open>@version\<close> is looked at.
\<close>

theorem validate_userscript_two_fields_missing:
  "exit_status (validate_userscript ''demo.user.js''
       [''demo.user.js'' \<mapsto> two_fields_missing_script]) = Some 1
   \<and> printed (final_state (validate_userscript ''demo.user.js''
       [''demo.user.js'' \<mapsto> two_fields_missing_script]))
     = [Err ''Missing required field: @name'']
   \<and> ERRORS (final_state (validate_userscript ''demo.user.js''
       [''demo.user.js'' \<mapsto> two_fields_missing_script])) = 1"
  by code_simp

text \<open>
  C3. The claim: an error finding for every recognized GM call that has no grant line.
  On \<open>two_grants_missing_script\<close> the only finding is the one for \<open>GM_setValue\<close>; the
  run ends there with status 1 and \<open>GM_getValue\<close> is never reported.
\<close>

theorem validate_userscript_two_grants_missing:
  "exit_status (validate_userscript ''demo.user.js''
       [''demo.user.js'' \<mapsto> two_grants_missing_script]) = Some 1
   \<and> printed (final_state (validate_userscript ''demo.user.js''
       [''demo.user.js'' \<mapsto> two_grants_missing_script]))
     = [Err ''Using GM_setValue without @grant declaration'']"
  by code_simp

section \<open>Properties of the bookmark store\<close>

lemma entry_ok_Nil: "entry_ok []"
  by (simp add: entry_ok_def)

lemma entry_ok_filter: "entry_ok bs \<Longrightarrow> entry_ok (filter P bs)"
  by (simp add: entry_ok_def sorted_filter distinct_map_filter)

lemma entry_ok_sort_snoc:
  assumes "entry_ok bs" and "\<not> list_ex (\<lambda>b. time b = t) bs"
  shows "entry_ok (sort_key time (bs @ [\<lparr>time = t, note_text = n\<rparr>]))"
proof -
  have "distinct (map time (bs @ [\<lparr>time = t, note_text = n\<rparr>]))"
    using assms by (auto simp: entry_ok_def list_ex_iff)
  then have "distinct (map time (sort_key time (bs @ [\<lparr>time = t, note_text = n\<rparr>])))"
    by (simp only: distinct_map set_sort distinct_sort)
  then show ?thesis
    by (simp add: entry_ok_def)
qed

lemma store_ok_entry: "store_ok store \<Longrightarrow> entry_ok (getBookmarks p store)"
  by (simp add: store_ok_def getBookmarks_def)

lemma store_ok_save:
  "store_ok store \<Longrightarrow> entry_ok bs \<Longrightarrow> store_ok (saveBookmarks p bs store)"
  by (simp add: store_ok_def saveBookmarks_def)

lemma store_ok_perform: "store_ok store \<Longrightarrow> store_ok (perform store a)"
proof (cases a)
  case (AddBookmark p)
  assume ok: "store_ok store"
  show ?thesis
    using ok AddBookmark
    by (simp add: addBookmark_def Let_def store_ok_save entry_ok_sort_snoc store_ok_entry)
next
  case (DeleteBookmark p t)
  assume ok: "store_ok store"
  show ?thesis
    using ok DeleteBookmark
    by (simp add: deleteBookmark_def store_ok_save entry_ok_filter store_ok_entry)
qed

lemma store_ok_foldl: "store_ok store \<Longrightarrow> store_ok (foldl perform store acts)"
  by (induction acts arbitrary: store) (simp_all add: store_ok_perform)

lemma store_ok_after_actions: "store_ok (after_actions acts)"
  unfolding after_actions_def
  by (rule store_ok_foldl) (simp add: store_ok_def entry_ok_Nil)

text \<open>
  C9. After any sequence of addBookmark and deleteBookmark operations, the entry of
  every video is sorted ascending by time and its time values are pairwise distinct; and
  an addBookmark at a time that is already bookmarked leaves the store as it is.
\<close>

theorem bookmark_store_invariant:
  "sorted (map time (getBookmarks q (after_actions acts)))
   \<and> distinct (map time (getBookmarks q (after_actions acts)))
   \<and> (getCurrentTime p \<in> set (map time (getBookmarks p (after_actions acts)))
        \<longrightarrow> addBookmark p (after_actions acts) = after_actions acts)"
proof -
  have "entry_ok (getBookmarks q (after_actions acts))"
    by (rule store_ok_entry [OF store_ok_after_actions])
  moreover have "getCurrentTime p \<in> set (map time (getBookmarks p store))
        \<longrightarrow> addBookmark p store = store" for store
    by (auto simp: addBookmark_def Let_def list_ex_iff)
  ultimately show ?thesis by (simp add: entry_ok_def)
qed

text \<open>
  Two bookmarks of one video, added at 90 s and then at 30 s, are stored in the order
  30, 90; adding at 90 s again changes nothing.
\<close>

theorem bookmark_store_invariant_witness:
  "getBookmarks page_at_90 (after_actions [AddBookmark page_at_90, AddBookmark page_at_30])
     = [\<lparr>time = 30, note_text = []\<rparr>, \<lparr>time = 90, note_text = []\<rparr>]
   \<and> getCurrentTime page_at_90
       \<in> set (map time (getBookmarks page_at_90
                 (after_actions [AddBookmark page_at_90, AddBookmark page_at_30])))
   \<and> addBookmark page_at_90 (after_actions [AddBookmark page_at_90, AddBookmark page_at_30])
      = after_actions [AddBookmark page_at_90, AddBookmark page_at_30]"
proof -
  have a: "getBookmarks page_at_90
             (after_actions [AddBookmark page_at_90, AddBookmark page_at_30])
     = [\<lparr>time = 30, note_text = []\<rparr>, \<lparr>time = 90, note_text = []\<rparr>]"
    by (simp add: after_actions_def addBookmark_def getBookmarks_def saveBookmarks_def
        getStorageKey_def getVideoId_def getCurrentTime_def page_at_90_def page_at_30_def
        Let_def)
  have b: "getCurrentTime page_at_90
       \<in> set (map time (getBookmarks page_at_90
                 (after_actions [AddBookmark page_at_90, AddBookmark page_at_30])))"
    by (simp add: a) (simp add: getCurrentTime_def page_at_90_def)
  have c: "addBookmark page_at_90
             (after_actions [AddBookmark page_at_90, AddBookmark page_at_30])
      = after_actions [AddBookmark page_at_90, AddBookmark page_at_30]"
    using bookmark_store_invariant
      [of page_at_90 "[AddBookmark page_at_90, AddBookmark page_at_30]" page_at_90] b
    by blast
  from a b c show ?thesis by (intro conjI)
qed

section \<open>Properties of the route matcher\<close>

lemma match_routes_first:
  assumes "list_all (\<lambda>r. \<exists>rx. route_regex E (pattern r) = Some rx
                            \<and> String_match E url rx = None) pre"
    and "route_regex E (pattern A) = Some ra" and "String_match E url ra = Some m"
  shows "match_routes E (pre @ A # post) url = Inr (Some (handler A, tl m))"
  using assms by (induction pre) auto

text \<open>
  C7. Route matching is ordered first-match. With the routes registered in the order
  A, B and an address that matches the patterns of both, \<open>match\<close> returns the handler
  of A with the captured groups of A's match, and \<open>handle\<close> makes exactly one call,
  the handler of A on those groups in order; the handler of B is not called.
\<close>

theorem route_first_match:
  assumes "route_regex E (pattern A) = Some ra" and "String_match E url ra = Some mA"
    and "route_regex E (pattern B) = Some rb" and "String_match E url rb = Some mB"
  shows "RouteHandler_match E
           (RouteHandler_add (pattern B) (handler B)
             (RouteHandler_add (pattern A) (handler A) RouteHandler_new)) url
         = Inr (Some (handler A, tl mA))
       \<and> RouteHandler_handle E
           (RouteHandler_add (pattern B) (handler B)
             (RouteHandler_add (pattern A) (handler A) RouteHandler_new)) url
         = Inr (True, [(handler A, tl mA)])"
  using assms
  by (simp add: RouteHandler_handle_def RouteHandler_match_def RouteHandler_add_def
      RouteHandler_new_def)

text \<open>
  The address \<open>/user/42\<close> matches both \<open>/user/:id\<close> and \<open>/user/*\<close>; the first
  route's handler is called with the one captured group, \<open>42\<close>.
\<close>

theorem route_first_match_witness:
  "route_regex sample_engine (pattern route_A) = Some ''^/user/([^/]+)$''
   \<and> String_match sample_engine ''/user/42'' ''^/user/([^/]+)$'' = Some [''/user/42'', ''42'']
   \<and> route_regex sample_engine (pattern route_B) = Some ''^/user/.*$''
   \<and> String_match sample_engine ''/user/42'' ''^/user/.*$'' = Some [''/user/42'']
   \<and> RouteHandler_handle sample_engine
           (RouteHandler_add (pattern route_B) (handler route_B)
             (RouteHandler_add (pattern route_A) (handler route_A) RouteHandler_new)) ''/user/42''
         = Inr (True, [(UserPage, [''42''])])"
proof -
  have a: "route_regex sample_engine (pattern route_A) = Some ''^/user/([^/]+)$''"
    by (simp add: route_regex_def route_A_def sample_engine_def param_char_def js_space_def)
  have b: "String_match sample_engine ''/user/42'' ''^/user/([^/]+)$''
             = Some [''/user/42'', ''42'']"
    by (simp add: sample_engine_def)
  have c: "route_regex sample_engine (pattern route_B) = Some ''^/user/.*$''"
    by (simp add: route_regex_def route_B_def sample_engine_def param_char_def js_space_def)
  have d: "String_match sample_engine ''/user/42'' ''^/user/.*$'' = Some [''/user/42'']"
    by (simp add: sample_engine_def)
  have e: "handler route_A = UserPage" by (simp add: route_A_def)
  from route_first_match [OF a b c d] a b c d e show ?thesis by simp
qed

section \<open>Properties of waitForElement\<close>

lemma not_observing_stays: "\<not> observing w \<Longrightarrow> foldl on_event w evs = w"
proof (induction evs)
  case Nil
  then show ?case by simp
next
  case (Cons ev evs)
  then show ?case by (cases ev) simp_all
qed

lemma observing_absent:
  assumes "observing w" and "list_all absent_in evs"
  shows "foldl on_event w evs =
     (if list_ex (late_mutation (startTime w) (timeout w)) evs
      then reject (Timeout (message w)) (disconnect w) else w)"
  using assms
proof (induction evs)
  case Nil
  then show ?case by simp
next
  case (Cons ev evs)
  show ?case
  proof (cases ev)
    case (TimePasses now)
    with Cons show ?thesis by simp
  next
    case (Mutation now element)
    with Cons.prems have el: "element = None" by simp
    show ?thesis
    proof (cases "now - startTime w > timeout w")
      case True
      have "\<not> observing (reject (Timeout (message w)) (disconnect w))"
        by (simp add: reject_def disconnect_def)
      then show ?thesis using Mutation el True Cons.prems
        by (simp add: not_observing_stays)
    next
      case False
      then show ?thesis using Mutation el Cons by simp
    qed
  qed
qed

lemma wait_with_never_present:
  assumes "list_all absent_in evs"
  shows "promise (after_events (wait_with prefix sel tmo start None has_body) evs) \<noteq> Resolved e
    \<and> timeout_outcomes (after_events (wait_with prefix sel tmo start None has_body) evs)
        = (if has_body \<and> list_ex (late_mutation start tmo) evs then 1 else 0)
    \<and> disconnects (after_events (wait_with prefix sel tmo start None has_body) evs)
        = (if has_body \<and> list_ex (late_mutation start tmo) evs then 1 else 0)"
proof (cases has_body)
  case True
  let ?w = "wait_with prefix sel tmo start None True :: 'a waiting"
  have obs: "observing ?w" and st: "startTime ?w = start" and tm: "timeout ?w = tmo"
    and pr: "promise ?w = Pending" and cl: "calls ?w = []"
    by (simp_all add: wait_with_def)
  have "after_events ?w evs =
     (if list_ex (late_mutation start tmo) evs
      then reject (Timeout (message ?w)) (disconnect ?w) else ?w)"
    unfolding after_events_def using observing_absent [OF obs assms] by (simp add: st tm)
  then show ?thesis using True pr cl
    by (simp add: timeout_outcomes_def disconnects_def reject_def disconnect_def)
next
  case False
  let ?w = "wait_with prefix sel tmo start None False :: 'a waiting"
  have "\<not> observing ?w" by (simp add: wait_with_def reject_def)
  then have "after_events ?w evs = ?w" unfolding after_events_def by (rule not_observing_stays)
  then show ?thesis using False
    by (simp add: timeout_outcomes_def disconnects_def wait_with_def reject_def)
qed

text \<open>
  C4, as the code has it. For a selector that is never present (not at the call and not
  at any mutation notification), in either template: the promise is never resolved, and
  the timeout outcome, one disconnect and one rejection, happens at most once. It
  happens exactly once when the document body exists and some mutation notification
  arrives more than \<open>timeout\<close> ms after the call, and not at all otherwise.
\<close>

theorem waitForElement_never_present:
  assumes "list_all absent_in evs"
    and "w0 = waitForElement sel tmo start None has_body
         \<or> w0 = Utils_waitForElement sel tmo start None has_body"
  shows "promise (after_events w0 evs) \<noteq> Resolved e
    \<and> timeout_outcomes (after_events w0 evs)
        = (if has_body \<and> list_ex (late_mutation start tmo) evs then 1 else 0)
    \<and> disconnects (after_events w0 evs)
        = (if has_body \<and> list_ex (late_mutation start tmo) evs then 1 else 0)"
  using assms(2) wait_with_never_present [OF assms(1)]
  unfolding waitForElement_def Utils_waitForElement_def
  by blast

text \<open>
  A call at time 0 with a timeout of 10000 ms and three mutation notifications, the
  second and third after the deadline: one timeout outcome, at the second.
\<close>

theorem waitForElement_never_present_witness:
  "list_all absent_in [Mutation 500 None, Mutation 10001 None, Mutation 10002 (None :: string option)]
   \<and> timeout_outcomes (after_events (waitForElement ''#app'' 10000 0 None True)
        [Mutation 500 None, Mutation 10001 None, Mutation 10002 (None :: string option)]) = 1
   \<and> disconnects (after_events (waitForElement ''#app'' 10000 0 None True)
        [Mutation 500 None, Mutation 10001 None, Mutation 10002 (None :: string option)]) = 1"
proof -
  let ?evs = "[Mutation 500 None, Mutation 10001 None, Mutation 10002 (None :: string option)]"
  have a: "list_all absent_in ?evs" by simp
  have b: "list_ex (late_mutation 0 10000) ?evs" by simp
  from waitForElement_never_present
         [OF a disjI1 [OF refl], of "''#app''" 10000 0 True] a b
  show ?thesis by simp
qed

text \<open>
  C4, as the claim has it, fails: the timeout outcome need not happen. After a call at
  time 0 with a timeout of 10000 ms on a page that never changes, 20000 ms later the
  observer is still connected, the promise is still pending and nothing has been
  rejected.
\<close>

theorem waitForElement_no_timer:
  "list_all absent_in [TimePasses 20000 :: string event]
   \<and> timeout_outcomes (after_events (waitForElement ''#app'' 10000 0 None True)
        [TimePasses 20000 :: string event]) = 0
   \<and> promise (after_events (waitForElement ''#app'' 10000 0 None True)
        [TimePasses 20000 :: string event]) = Pending
   \<and> observing (after_events (waitForElement ''#app'' 10000 0 None True)
        [TimePasses 20000 :: string event])"
  by (simp add: after_events_def waitForElement_def wait_with_def timeout_outcomes_def)

section \<open>Properties of the generator\<close>

subsection \<open>One line through the pipeline\<close>









subsection \<open>The title\<close>







subsection \<open>The icon domain\<close>






subsection \<open>The output file\<close>





end
